theory Spec2Isabelle
  imports Main "HOL-Library.Word" "HOL-Library.Sublist"
begin

section \<open>The 'www' Koa application: a shallow embedding of app-www/app-www.js\<close>

text \<open>
  The source file configures one Koa application: a chain of middleware
  functions, each taking the request context and the continuation \<open>next\<close>.
  The embedding keeps the source's names. Middleware defined in the file
  (\<open>logAccess\<close>, \<open>handleErrors\<close>, \<open>cleanPost\<close>, \<open>ctxAddDomain\<close>, \<open>notFound\<close>)
  are translated line by line; what they call in libraries (the template
  renderer, the event emitter, the console, the log sink) is recorded as an
  effect on the threaded state.
\<close>

subsection \<open>JavaScript values\<close>

text \<open>
  A JavaScript string is a sequence of 16-bit code units. String literals of
  the source are ASCII and are written through \<open>js\<close>.
\<close>

type_synonym jsstring = "16 word list"

definition js :: "string \<Rightarrow> jsstring" where
  "js s = map of_char s"

text \<open>
  The values a parsed request body is built from. Arrays and uploaded-file
  entries are objects (\<open>typeof\<close> gives \<open>'object'\<close>), so they are \<open>JObj\<close> here;
  the payload of a number is never inspected by this code.
\<close>

datatype jsval =
    JUndefined
  | JNull
  | JBool bool
  | JNum int
  | JStr jsstring
  | JObj "(jsstring \<times> jsval) list"

type_synonym props = "(jsstring \<times> jsval) list"

text \<open>\<open>obj[key]\<close> as a read: the property's value, \<open>undefined\<close> when absent.\<close>

fun get_prop :: "props \<Rightarrow> jsstring \<Rightarrow> jsval" where
  "get_prop [] key = JUndefined"
| "get_prop ((k, v) # ps) key = (if k = key then v else get_prop ps key)"

text \<open>\<open>obj[key] = v\<close>: overwrite in place, or add the property at the end.\<close>

fun set_prop :: "props \<Rightarrow> jsstring \<Rightarrow> jsval \<Rightarrow> props" where
  "set_prop [] key v = [(key, v)]"
| "set_prop ((k, w) # ps) key v =
     (if k = key then (k, v) # ps else (k, w) # set_prop ps key v)"

text \<open>\<open>key in obj\<close>.\<close>

definition has_prop :: "jsstring \<Rightarrow> props \<Rightarrow> bool" where
  "has_prop key ps = (key \<in> set (map fst ps))"

text \<open>The keys a \<open>for (const key in obj)\<close> loop visits.\<close>

definition keys :: "props \<Rightarrow> jsstring list" where
  "keys ps = map fst ps"

text \<open>
  \<open>String.prototype.trim\<close> removes leading and trailing WhiteSpace and
  LineTerminator code points (ECMAScript, sections 12.2 and 12.3).
\<close>

definition isWhiteSpace :: "16 word \<Rightarrow> bool" where
  "isWhiteSpace c =
     (c = 0x9 \<or> c = 0xA \<or> c = 0xB \<or> c = 0xC \<or> c = 0xD \<or> c = 0x20 \<or> c = 0xA0
      \<or> c = 0x1680 \<or> (0x2000 \<le> c \<and> c \<le> 0x200A) \<or> c = 0x2028 \<or> c = 0x2029
      \<or> c = 0x202F \<or> c = 0x205F \<or> c = 0x3000 \<or> c = 0xFEFF)"

definition trim :: "jsstring \<Rightarrow> jsstring" where
  "trim s = rev (dropWhile isWhiteSpace (rev (dropWhile isWhiteSpace s)))"

subsection \<open>Errors\<close>

text \<open>
  A thrown error value: \<open>e.status\<close> (absent is \<open>None\<close>) and \<open>e.message\<close>.
\<close>

datatype js_error = JsError (e_status: "int option") (e_message: jsstring)

text \<open>
  The TypeError the language raises for \<open>key in primitive\<close> and, in strict
  mode, for an assignment to a property of a primitive string. It carries no
  status; its message text depends on the engine.
\<close>

definition TypeError :: js_error where
  "TypeError = JsError None (js ''TypeError'')"

subsection \<open>cleanPost: the body of the loop\<close>

text \<open>
  \<^verbatim>\<open>
  for (const key in body) {
      if (typeof body[key] == 'string') {
          body[key] = body[key].trim();
          if (body[key] == '') body[key] = null;
      }
  }
  \<close>
  The loop assigns to existing properties only, so the keys it visits are
  those the object had when the loop started.
\<close>

fun for_in_clean :: "jsstring list \<Rightarrow> props \<Rightarrow> props" where
  "for_in_clean [] body = body"
| "for_in_clean (key # ks) body =
     for_in_clean ks
       (case get_prop body key of
          JStr s \<Rightarrow>
            (let body1 = set_prop body key (JStr (trim s))
             in if get_prop body1 key = JStr [] then set_prop body1 key JNull else body1)
        | _ \<Rightarrow> body)"

text \<open>
  \<^verbatim>\<open>
  if (ctx.request.body !== undefined) {
      const multipart = 'fields' in ctx.request.body && 'files' in ctx.request.body;
      const body =  multipart ? ctx.request.body.fields : ctx.request.body;
      for (const key in body) { ... }
  }
  \<close>
  \<open>in\<close> raises a TypeError on a body that is not an object. In the multipart
  case \<open>body\<close> is whatever the \<open>fields\<close> property holds: an object is
  normalised in place; \<open>for-in\<close> over \<open>null\<close>, \<open>undefined\<close>, a boolean, a
  number or the empty string visits no key; over a non-empty string it visits
  the index \<open>0\<close>, whose value is a string, and the assignment to it raises a
  TypeError (the file is in strict mode).
\<close>

definition multipart :: "props \<Rightarrow> bool" where
  "multipart b = (has_prop (js ''fields'') b \<and> has_prop (js ''files'') b)"

definition clean_body :: "jsval \<Rightarrow> js_error + jsval" where
  "clean_body rb =
     (case rb of
        JUndefined \<Rightarrow> Inr JUndefined
      | JObj b \<Rightarrow>
          (if multipart b then
             (case get_prop b (js ''fields'') of
                JObj fs \<Rightarrow>
                  Inr (JObj (set_prop b (js ''fields'') (JObj (for_in_clean (keys fs) fs))))
              | JStr s \<Rightarrow> (if s = [] then Inr (JObj b) else Inl TypeError)
              | _ \<Rightarrow> Inr (JObj b))
           else Inr (JObj (for_in_clean (keys b) b)))
      | _ \<Rightarrow> Inl TypeError)"

text \<open>What the loop does to one property value, as the specification words it.\<close>

definition clean_val :: "jsval \<Rightarrow> jsval" where
  "clean_val v =
     (case v of
        JStr s \<Rightarrow> (if trim s = [] then JNull else JStr (trim s))
      | _ \<Rightarrow> v)"

definition clean_props :: "props \<Rightarrow> props" where
  "clean_props b = map (\<lambda>(k, v). (k, clean_val v)) b"

subsection \<open>The request context and the effects of a request\<close>

text \<open>
  The context values handed to a template, \<open>{ msg: ... }\<close> and \<open>{ e: e }\<close>.
\<close>

datatype local_val = LNull | LStr jsstring | LErr js_error

type_synonym locals = "(jsstring \<times> local_val) list"

text \<open>
  Calls that leave the application, in the order they are made:
  \<open>console.error(status, message)\<close>, \<open>ctx.render(view, context)\<close>,
  \<open>ctx.app.emit('error', e, ctx)\<close> and \<open>Log.access(ctx, duration)\<close>.
\<close>

datatype effect =
    ConsoleError int jsstring
  | Render jsstring locals
  | Emit js_error
  | LogAccess int

datatype response_body = NoBody | Content jsstring | Rendered jsstring locals

text \<open>
  The Koa context, with the part of the environment a request can observe:
  \<open>host\<close> is \<open>ctx.host\<close>, \<open>request_body\<close> is \<open>ctx.request.body\<close>, \<open>status\<close>
  and \<open>body\<close> are the response's, \<open>state\<close> is \<open>ctx.state\<close>, \<open>now\<close> is the
  reading \<open>Date.now()\<close> returns (milliseconds of the wall clock), \<open>effects\<close>
  the calls made so far.
\<close>

record ctx =
  host :: jsstring
  request_body :: jsval
  status :: int
  body :: response_body
  state :: props
  now :: int
  effects :: "effect list"

text \<open>
  An awaited call either completes or throws; the context keeps what was
  written to it before the throw. A middleware takes \<open>next\<close>, the rest of the
  chain.
\<close>

datatype outcome = Done | Thrown js_error

type_synonym action = "ctx \<Rightarrow> outcome \<times> ctx"

type_synonym middleware = "action \<Rightarrow> action"

definition throw :: "js_error \<Rightarrow> action" where
  "throw e c = (Thrown e, c)"

definition finish :: action where
  "finish c = (Done, c)"

text \<open>
  Modelled from the spec: the templating engine's \<open>render(viewName, context)\<close>
  capability attached to the context, which is outside this file. It
  finalises the response body with the rendering of the named view, kept
  symbolic here. The spec gives the capability no failure mode, and none is
  modelled: a call to it completes.
\<close>

definition render :: "jsstring \<Rightarrow> locals \<Rightarrow> ctx \<Rightarrow> ctx" where
  "render view context c =
     c\<lparr>body := Rendered view context, effects := effects c @ [Render view context]\<rparr>"

text \<open>
  \<open>console.error\<close> and \<open>ctx.app.emit('error', e, ctx)\<close> are recorded as calls
  that complete.
\<close>

definition console_error :: "int \<Rightarrow> jsstring \<Rightarrow> ctx \<Rightarrow> ctx" where
  "console_error st msg c = c\<lparr>effects := effects c @ [ConsoleError st msg]\<rparr>"

definition emit_error :: "js_error \<Rightarrow> ctx \<Rightarrow> ctx" where
  "emit_error e c = c\<lparr>effects := effects c @ [Emit e]\<rparr>"

text \<open>
  Modelled from the spec: \<open>Log.access\<close> of lib/log.js, the external log sink
  taking the context and the duration. The call is recorded; whether the sink
  then completes or fails is the parameter \<open>sink\<close>, and a failure propagates.
\<close>

definition Log_access :: "(ctx \<Rightarrow> int \<Rightarrow> outcome) \<Rightarrow> int \<Rightarrow> action" where
  "Log_access sink duration c =
     (sink c duration, c\<lparr>effects := effects c @ [LogAccess duration]\<rparr>)"

subsection \<open>Static files\<close>

text \<open>
  \<^verbatim>\<open>const maxage = app.env=='production' ? 1000*60*60*24 : 1000;\<close>
\<close>

definition maxage :: "jsstring \<Rightarrow> int" where
  "maxage env = (if env = js ''production'' then 1000 * 60 * 60 * 24 else 1000)"

subsection \<open>logAccess\<close>

text \<open>
  \<^verbatim>\<open>
  const t1 = Date.now();
  await next();
  const t2 = Date.now();
  await Log.access(ctx, t2 - t1);
  \<close>
\<close>

definition logAccess :: "(ctx \<Rightarrow> int \<Rightarrow> outcome) \<Rightarrow> middleware" where
  "logAccess sink next c =
     (let t1 = now c in
      case next c of
        (Thrown e, c1) \<Rightarrow> (Thrown e, c1)
      | (Done, c1) \<Rightarrow> (let t2 = now c1 in Log_access sink (t2 - t1) c1))"

subsection \<open>handleErrors\<close>

text \<open>\<open>e.status || 500\<close>: an absent status and the status 0 are falsy.\<close>

definition status_or_500 :: "js_error \<Rightarrow> int" where
  "status_or_500 e = (case e_status e of None \<Rightarrow> 500 | Some n \<Rightarrow> if n = 0 then 500 else n)"

text \<open>
  The decimal text of an integer, as a template literal prints it.
\<close>

fun decimal :: "nat \<Rightarrow> jsstring" where
  "decimal n =
     (if n < 10 then [of_nat (48 + n)]
      else decimal (n div 10) @ [of_nat (48 + n mod 10)])"

declare decimal.simps [simp del]

definition show_int :: "int \<Rightarrow> jsstring" where
  "show_int i = (if i < 0 then 0x2D # decimal (nat (- i)) else decimal (nat i))"

text \<open>
  \<open>ctx.status = code\<close> goes through the framework's setter (koa,
  lib/response.js, outside this file), for a response whose headers are not
  yet sent:
  \<^verbatim>\<open>
  assert(Number.isInteger(code), 'status code must be a number');
  assert(code >= 100 && code <= 999, `invalid status code: ${code}`);
  \<close>
  A code outside 100..999 raises an AssertionError, which has no status, and
  the response status stays as it was.
\<close>

definition AssertionError :: "int \<Rightarrow> js_error" where
  "AssertionError code = JsError None (js ''invalid status code: '' @ show_int code)"

definition valid_status :: "int \<Rightarrow> bool" where
  "valid_status code = (100 \<le> code \<and> code \<le> 999)"

definition set_status :: "int \<Rightarrow> ctx \<Rightarrow> js_error + ctx" where
  "set_status code c =
     (if valid_status code then Inr (c\<lparr>status := code\<rparr>) else Inl (AssertionError code))"

text \<open>
  \<^verbatim>\<open>
  try { await next(); } catch (e) {
      ctx.status = e.status || 500;
      switch (ctx.status) {
          case 404:
              const context404 = { msg: e.message=='Not Found'?null:e.message };
              await ctx.render('404-not-found', context404);
              break;
          default:
          case 500:
              console.error(ctx.status, e.message);
              const context500 = app.env=='production' ? {} : { e: e };
              await ctx.render('500-internal-server-error', context500);
              ctx.app.emit('error', e, ctx);
              break;
      }
  }
  \<close>
  The assignment to \<open>ctx.status\<close> is inside the \<open>catch\<close> block, so what the
  setter throws leaves \<open>handleErrors\<close>.
\<close>

definition handleErrors :: "jsstring \<Rightarrow> middleware" where
  "handleErrors env next c =
     (case next c of
        (Done, c1) \<Rightarrow> (Done, c1)
      | (Thrown e, c1) \<Rightarrow>
          (case set_status (status_or_500 e) c1 of
             Inl a \<Rightarrow> (Thrown a, c1)
           | Inr c2 \<Rightarrow>
               if status c2 = 404 then
                 (let context404 =
                        [(js ''msg'',
                          if e_message e = js ''Not Found'' then LNull else LStr (e_message e))]
                  in (Done, render (js ''404-not-found'') context404 c2))
               else
                 (let c3 = console_error (status c2) (e_message e) c2;
                      context500 = (if env = js ''production'' then [] else [(js ''e'', LErr e)]);
                      c4 = render (js ''500-internal-server-error'') context500 c3
                  in (Done, emit_error e c4))))"

subsection \<open>cleanPost\<close>

definition cleanPost :: middleware where
  "cleanPost next c =
     (case clean_body (request_body c) of
        Inl e \<Rightarrow> (Thrown e, c)
      | Inr b \<Rightarrow> next (c\<lparr>request_body := b\<rparr>))"

subsection \<open>ctxAddDomain\<close>

text \<open>
  \<open>s.replace(pattern, replacement)\<close> with a string pattern: the first
  occurrence of the pattern, wherever it is, is replaced; a string without
  the pattern is returned as it is. (The replacement of the source is the
  empty string, so no \<open>$\<close> substitution is involved.)
\<close>

fun replace :: "jsstring \<Rightarrow> jsstring \<Rightarrow> jsstring \<Rightarrow> jsstring" where
  "replace [] pat rep = (if pat = [] then rep else [])"
| "replace (c # cs) pat rep =
     (if prefix pat (c # cs) then rep @ drop (length pat) (c # cs)
      else c # replace cs pat rep)"

text \<open>
  \<^verbatim>\<open>
  ctx.state.domain = ctx.host.replace('www.', '');
  await next();
  \<close>
\<close>

definition ctxAddDomain :: middleware where
  "ctxAddDomain next c =
     next (c\<lparr>state := set_prop (state c) (js ''domain'')
                          (JStr (replace (host c) (js ''www.'') []))\<rparr>)"

subsection \<open>notFound\<close>

text \<open>
  Modelled from the spec: \<open>ctx.throw(404)\<close> of the framework raises an error
  with status 404 and the generic message \<open>Not Found\<close>.
\<close>

definition http_error_404 :: js_error where
  "http_error_404 = JsError (Some 404) (js ''Not Found'')"

definition notFound :: action where
  "notFound = throw http_error_404"

subsection \<open>The chain\<close>

text \<open>
  The order of the \<open>app.use\<close> calls. The middleware taken from libraries and
  the route table (routes-www.js) are parameters.
\<close>

definition app_www ::
  "jsstring \<Rightarrow> (ctx \<Rightarrow> int \<Rightarrow> outcome) \<Rightarrow> middleware \<Rightarrow> middleware \<Rightarrow> middleware
     \<Rightarrow> middleware \<Rightarrow> middleware \<Rightarrow> action" where
  "app_www env sink serve handlebars flash lusca routes =
     serve (logAccess sink (handlebars (handleErrors env
       (cleanPost (flash (lusca (ctxAddDomain (routes notFound))))))))"

text \<open>A library middleware that does nothing but call \<open>next\<close>.\<close>

definition pass_through :: middleware where
  "pass_through next c = next c"

text \<open>
  The context of a request as the framework creates it: status 404, no body,
  an empty \<open>ctx.state\<close>.
\<close>

definition new_ctx :: "jsstring \<Rightarrow> jsval \<Rightarrow> int \<Rightarrow> ctx" where
  "new_ctx h rb t =
     \<lparr>host = h, request_body = rb, status = 404, body = NoBody, state = [],
      now = t, effects = []\<rparr>"


fun is_LogAccess :: "effect \<Rightarrow> bool" where
  "is_LogAccess (LogAccess d) = True"
| "is_LogAccess _ = False"

text \<open>A downstream step that takes \<open>ms\<close> milliseconds before it goes on.\<close>

definition elapse :: "int \<Rightarrow> middleware" where
  "elapse ms next c = next (c\<lparr>now := now c + ms\<rparr>)"

text \<open>A log sink that completes.\<close>

definition sink_ok :: "ctx \<Rightarrow> int \<Rightarrow> outcome" where
  "sink_ok c d = Done"

subsection \<open>Sample request bodies\<close>

text \<open>
  A flat form, a multipart body as the body parser shapes it (with one more
  top-level entry), two flat forms that have fields named \<open>fields\<close> and
  \<open>files\<close> (left blank, and filled in), and a flat form that has a field
  named \<open>fields\<close> but none named \<open>files\<close>.
\<close>

definition sample_flat :: props where
  "sample_flat = [(js ''name'', JStr (js ''  Ann '')), (js ''note'', JStr (js ''   '')),
                  (js ''age'', JNum 42), (js ''files'', JStr (js ''x ''))]"

definition sample_multipart :: props where
  "sample_multipart =
     [(js ''fields'', JObj [(js ''a'', JStr (js '' x '')), (js ''b'', JStr [])]),
      (js ''files'', JObj [(js ''f'', JObj [(js ''name'', JStr (js '' f.txt ''))])]),
      (js ''extra'', JStr (js '' y ''))]"

definition sample_flat_both :: props where
  "sample_flat_both = [(js ''fields'', JStr []), (js ''files'', JStr []),
                       (js ''name'', JStr (js '' x ''))]"

definition sample_flat_both_text :: props where
  "sample_flat_both_text = [(js ''fields'', JStr (js ''a'')), (js ''files'', JStr (js ''b'')),
                            (js ''name'', JStr (js '' x ''))]"

definition sample_fields_only :: props where
  "sample_fields_only = [(js ''fields'', JStr (js '' a, b '')), (js ''q'', JStr (js '' ''))]"

section \<open>Properties\<close>

subsection \<open>Objects and the normalising loop\<close>

lemma get_prop_append_notin:
  "key \<notin> set (map fst pre) \<Longrightarrow> get_prop (pre @ ps) key = get_prop ps key"
  by (induction pre) auto

lemma set_prop_append_notin:
  "key \<notin> set (map fst pre) \<Longrightarrow> set_prop (pre @ ps) key v = pre @ set_prop ps key v"
  by (induction pre) auto

lemma for_in_clean_step:
  "key \<notin> set (map fst pre) \<Longrightarrow>
   for_in_clean (key # ks) (pre @ (key, v) # ps)
     = for_in_clean ks (pre @ (key, clean_val v) # ps)"
  by (cases v) (simp_all add: get_prop_append_notin set_prop_append_notin clean_val_def Let_def)

lemma for_in_clean_gen:
  "distinct (map fst (pre @ ps)) \<Longrightarrow>
   for_in_clean (map fst ps) (pre @ ps) = pre @ map (\<lambda>(k, v). (k, clean_val v)) ps"
proof (induction ps arbitrary: pre)
  case Nil
  then show ?case by simp
next
  case (Cons p ps)
  obtain k v where p: "p = (k, v)" by (cases p)
  from Cons.prems p have notin: "k \<notin> set (map fst pre)" by auto
  from Cons.prems p have dist: "distinct (map fst ((pre @ [(k, clean_val v)]) @ ps))" by auto
  have "for_in_clean (map fst (p # ps)) (pre @ p # ps)
          = for_in_clean (map fst ps) ((pre @ [(k, clean_val v)]) @ ps)"
    using for_in_clean_step [OF notin] p by simp
  also have "\<dots> = (pre @ [(k, clean_val v)]) @ map (\<lambda>(k, v). (k, clean_val v)) ps"
    by (rule Cons.IH [OF dist])
  finally show ?case using p by simp
qed

lemma for_in_clean_map:
  "distinct (keys b) \<Longrightarrow> for_in_clean (keys b) b = map (\<lambda>(k, v). (k, clean_val v)) b"
  using for_in_clean_gen [of "[]" b] by (simp add: keys_def)

lemma get_set_other: "k \<noteq> key \<Longrightarrow> get_prop (set_prop b key v) k = get_prop b k"
  by (induction b) auto

lemma clean_val_undefined: "clean_val JUndefined = JUndefined"
  by (simp add: clean_val_def)

lemma get_clean_props: "get_prop (clean_props b) k = clean_val (get_prop b k)"
  by (induction b) (auto simp: clean_props_def clean_val_undefined)

lemma request_body_same: "request_body c = v \<Longrightarrow> c\<lparr>request_body := v\<rparr> = c"
  by (cases c) simp

lemma clean_body_flat:
  "distinct (keys b) \<Longrightarrow> \<not> multipart b \<Longrightarrow> clean_body (JObj b) = Inr (JObj (clean_props b))"
  by (simp add: clean_body_def clean_props_def for_in_clean_map)

lemma clean_body_multipart:
  "multipart b \<Longrightarrow> get_prop b (js ''fields'') = JObj fs \<Longrightarrow> distinct (keys fs) \<Longrightarrow>
   clean_body (JObj b) = Inr (JObj (set_prop b (js ''fields'') (JObj (clean_props fs))))"
  by (simp add: clean_body_def clean_props_def for_in_clean_map)

subsection \<open>What trim removes\<close>

lemma rev_dropWhile_split:
  "m = rev (dropWhile P (rev m)) @ rev (takeWhile P (rev m))"
proof -
  have "rev (dropWhile P (rev m)) @ rev (takeWhile P (rev m))
          = rev (takeWhile P (rev m) @ dropWhile P (rev m))"
    by (simp only: rev_append)
  also have "\<dots> = rev (rev m)" by (simp only: takeWhile_dropWhile_id)
  finally show ?thesis by simp
qed

lemma trim_split:
  "dropWhile isWhiteSpace s
     = trim s @ rev (takeWhile isWhiteSpace (rev (dropWhile isWhiteSpace s)))"
  unfolding trim_def by (rule rev_dropWhile_split)

lemma list_all_takeWhile: "list_all P (takeWhile P xs)"
  by (induction xs) auto

lemma trim_decomp:
  "\<exists>l r. s = l @ trim s @ r \<and> list_all isWhiteSpace l \<and> list_all isWhiteSpace r"
proof -
  let ?l = "takeWhile isWhiteSpace s"
  let ?r = "rev (takeWhile isWhiteSpace (rev (dropWhile isWhiteSpace s)))"
  have "s = ?l @ dropWhile isWhiteSpace s" by simp
  also have "\<dots> = ?l @ trim s @ ?r" using trim_split [of s] by simp
  finally have "s = ?l @ trim s @ ?r" .
  moreover have "list_all isWhiteSpace ?l" by (rule list_all_takeWhile)
  moreover have "list_all isWhiteSpace ?r" by (simp add: list_all_takeWhile)
  ultimately show ?thesis by blast
qed

lemma trim_last: "trim s \<noteq> [] \<Longrightarrow> \<not> isWhiteSpace (last (trim s))"
  by (simp add: trim_def last_rev hd_dropWhile)

lemma trim_hd: "trim s \<noteq> [] \<Longrightarrow> \<not> isWhiteSpace (hd (trim s))"
proof -
  assume ne: "trim s \<noteq> []"
  let ?m = "dropWhile isWhiteSpace s"
  from ne trim_split [of s] have "?m \<noteq> []" by (metis append_is_Nil_conv)
  then have "\<not> isWhiteSpace (hd ?m)" by (rule hd_dropWhile)
  moreover from ne have "hd ?m = hd (trim s)" by (subst trim_split) simp
  ultimately show ?thesis by simp
qed

subsection \<open>The body normaliser\<close>

text \<open>
  Claim C1, as stated, covers every flat field map. A flat form with fields
  named \<open>fields\<close> and \<open>files\<close> (here both left blank) passes the multipart
  test, so the loop runs over the value of \<open>fields\<close> and not over the form:
  the body comes out as it went in, \<open>name\<close> untrimmed and the blank fields not
  replaced by \<open>null\<close>. The second conjunct shows what trimming every string
  field would have given.
\<close>

theorem cleanPost_flat_fields_counterexample:
  "clean_body (JObj [(js ''fields'', JStr []), (js ''files'', JStr []),
                     (js ''name'', JStr (js '' x ''))])
     = Inr (JObj [(js ''fields'', JStr []), (js ''files'', JStr []),
                  (js ''name'', JStr (js '' x ''))])
   \<and> clean_props [(js ''fields'', JStr []), (js ''files'', JStr []),
                   (js ''name'', JStr (js '' x ''))]
     = [(js ''fields'', JNull), (js ''files'', JNull), (js ''name'', JStr (js ''x''))]"
  by (simp add: clean_body_def multipart_def has_prop_def clean_props_def clean_val_def
        trim_def isWhiteSpace_def js_def)

text \<open>
  Claim C1, amended. When no body was parsed, \<open>cleanPost\<close> only calls \<open>next\<close>;
  otherwise \<open>next\<close> runs on the normalised body. A flat body that does not
  contain both keys \<open>fields\<close> and \<open>files\<close> has every property normalised; a
  body that contains both, with an object under \<open>fields\<close>, has the properties
  of that object normalised and its \<open>files\<close> entry as before. Normalising keeps
  the keys and maps each value by \<open>clean_val\<close>: a string becomes its trimmed
  form, or \<open>null\<close> when that is empty, and any other value is unchanged. The
  trimmed form is the string without a whitespace-only prefix and suffix, and
  it neither starts nor ends with whitespace.
\<close>

theorem cleanPost_normalises:
  "(request_body c = JUndefined \<longrightarrow> cleanPost next c = next c)
   \<and> (clean_body (request_body c) = Inr b' \<longrightarrow> cleanPost next c = next (c\<lparr>request_body := b'\<rparr>))
   \<and> (distinct (keys b) \<and> \<not> multipart b \<longrightarrow>
         clean_body (JObj b) = Inr (JObj (clean_props b)))
   \<and> (multipart b \<and> get_prop b (js ''fields'') = JObj fs \<and> distinct (keys fs) \<longrightarrow>
         clean_body (JObj b) = Inr (JObj (set_prop b (js ''fields'') (JObj (clean_props fs))))
         \<and> get_prop (set_prop b (js ''fields'') (JObj (clean_props fs))) (js ''files'')
             = get_prop b (js ''files''))
   \<and> keys (clean_props b) = keys b
   \<and> (\<forall>k. get_prop (clean_props b) k = clean_val (get_prop b k))
   \<and> clean_val (JStr s) = (if trim s = [] then JNull else JStr (trim s))
   \<and> ((\<forall>t. v \<noteq> JStr t) \<longrightarrow> clean_val v = v)
   \<and> (\<exists>l r. s = l @ trim s @ r \<and> list_all isWhiteSpace l \<and> list_all isWhiteSpace r)
   \<and> (trim s \<noteq> [] \<longrightarrow> \<not> isWhiteSpace (hd (trim s)) \<and> \<not> isWhiteSpace (last (trim s)))"
proof -
  have a: "request_body c = JUndefined \<longrightarrow> cleanPost next c = next c"
    by (simp add: cleanPost_def clean_body_def request_body_same)
  have b: "clean_body (request_body c) = Inr b' \<longrightarrow> cleanPost next c = next (c\<lparr>request_body := b'\<rparr>)"
    by (simp add: cleanPost_def)
  have f: "get_prop (set_prop b (js ''fields'') (JObj (clean_props fs))) (js ''files'')
             = get_prop b (js ''files'')"
    by (rule get_set_other) (simp add: js_def)
  have k: "keys (clean_props b) = keys b"
    by (simp add: keys_def clean_props_def case_prod_unfold comp_def)
  have g: "\<forall>k. get_prop (clean_props b) k = clean_val (get_prop b k)"
    by (simp add: get_clean_props)
  have n: "(\<forall>t. v \<noteq> JStr t) \<longrightarrow> clean_val v = v"
    by (cases v) (simp_all add: clean_val_def)
  show ?thesis
    using a b f k g n clean_body_flat [of b] clean_body_multipart [of b fs]
      trim_decomp [of s] trim_hd [of s] trim_last [of s]
    by (simp add: clean_val_def)
qed

theorem cleanPost_normalises_witness:
  "cleanPost finish (new_ctx (js ''www.example.com'') JUndefined 0)
     = finish (new_ctx (js ''www.example.com'') JUndefined 0)
   \<and> distinct (keys sample_flat) \<and> \<not> multipart sample_flat
   \<and> clean_body (JObj sample_flat)
       = Inr (JObj [(js ''name'', JStr (js ''Ann'')), (js ''note'', JNull),
                    (js ''age'', JNum 42), (js ''files'', JStr (js ''x''))])
   \<and> multipart sample_multipart
   \<and> clean_body (JObj sample_multipart)
       = Inr (JObj [(js ''fields'', JObj [(js ''a'', JStr (js ''x'')), (js ''b'', JNull)]),
                    (js ''files'', JObj [(js ''f'', JObj [(js ''name'', JStr (js '' f.txt ''))])]),
                    (js ''extra'', JStr (js '' y ''))])"
  using cleanPost_normalises [of "new_ctx (js ''www.example.com'') JUndefined 0" finish
          JUndefined sample_flat "[]" "js ''  Ann ''" JNull]
        cleanPost_normalises [of "new_ctx (js ''www.example.com'') JUndefined 0" finish
          JUndefined sample_multipart
          "[(js ''a'', JStr (js '' x '')), (js ''b'', JStr [])]" "js '' x ''" JNull]
  by (simp add: sample_flat_def sample_multipart_def new_ctx_def keys_def multipart_def
        has_prop_def clean_props_def clean_val_def trim_def isWhiteSpace_def js_def)

subsection \<open>The loop on objects with any keys\<close>

lemma get_set_same: "get_prop (set_prop b key v) key = v"
  by (induction b) auto

lemma keys_set_prop: "has_prop key b \<Longrightarrow> keys (set_prop b key v) = keys b"
proof (induction b)
  case Nil
  then show ?case by (simp add: has_prop_def)
next
  case (Cons p b)
  obtain k w where p: "p = (k, w)" by (cases p)
  show ?case
  proof (cases "k = key")
    case True
    with p show ?thesis by (simp add: keys_def)
  next
    case False
    with Cons.prems p have "has_prop key b" by (simp add: has_prop_def)
    then have "keys (set_prop b key v) = keys b" by (rule Cons.IH)
    with False p show ?thesis by (simp add: keys_def)
  qed
qed

lemma dropWhile_hd_id: "xs = [] \<or> \<not> P (hd xs) \<Longrightarrow> dropWhile P xs = xs"
  by (cases xs) auto

lemma trim_idem: "trim (trim s) = trim s"
proof (cases "trim s = []")
  case True
  have "trim [] = []" by (simp add: trim_def)
  with True show ?thesis by simp
next
  case False
  have front: "dropWhile isWhiteSpace (trim s) = trim s"
    using trim_hd [OF False] by (simp add: dropWhile_hd_id)
  have "hd (rev (trim s)) = last (trim s)" using False by (simp add: hd_rev)
  then have rear: "dropWhile isWhiteSpace (rev (trim s)) = rev (trim s)"
    using trim_last [OF False] by (simp add: dropWhile_hd_id)
  have "trim (trim s) = rev (dropWhile isWhiteSpace (rev (dropWhile isWhiteSpace (trim s))))"
    by (simp only: trim_def)
  also have "\<dots> = trim s" by (simp only: front rear rev_rev_ident)
  finally show ?thesis .
qed

lemma clean_val_idem: "clean_val (clean_val v) = clean_val v"
  by (cases v) (simp_all add: clean_val_def trim_idem)

lemma step_get:
  "get_prop (case get_prop b key of
          JStr s \<Rightarrow>
            (let body1 = set_prop b key (JStr (trim s))
             in if get_prop body1 key = JStr [] then set_prop body1 key JNull else body1)
        | _ \<Rightarrow> b) k = (if k = key then clean_val (get_prop b key) else get_prop b k)"
  by (cases "get_prop b key") (auto simp: clean_val_def get_set_same get_set_other Let_def)

lemma has_prop_set_prop: "has_prop key (set_prop b key v)"
  by (induction b) (force simp: has_prop_def)+

lemma get_prop_absent: "\<not> has_prop key b \<Longrightarrow> get_prop b key = JUndefined"
  by (induction b) (auto simp: has_prop_def)

lemma step_keys:
  "keys (case get_prop b key of
          JStr s \<Rightarrow>
            (let body1 = set_prop b key (JStr (trim s))
             in if get_prop body1 key = JStr [] then set_prop body1 key JNull else body1)
        | _ \<Rightarrow> b) = keys b"
proof (cases "has_prop key b")
  case True
  then show ?thesis
    by (cases "get_prop b key") (simp_all add: keys_set_prop has_prop_set_prop Let_def)
next
  case False
  then show ?thesis by (simp add: get_prop_absent)
qed

lemma for_in_clean_keys: "keys (for_in_clean ks b) = keys b"
  by (induction ks arbitrary: b) (simp_all add: step_keys)

lemma for_in_clean_get:
  "get_prop (for_in_clean ks b) k
     = (if k \<in> set ks then clean_val (get_prop b k) else get_prop b k)"
proof (induction ks arbitrary: b)
  case Nil
  then show ?case by simp
next
  case (Cons key ks)
  show ?case
    by (simp only: for_in_clean.simps Cons.IH step_get) (auto simp: clean_val_idem)
qed

lemma for_in_clean_all:
  "get_prop (for_in_clean (keys b) b) k = clean_val (get_prop b k)"
proof (cases "has_prop k b")
  case True
  then show ?thesis by (simp add: for_in_clean_get has_prop_def keys_def)
next
  case False
  then show ?thesis
    by (simp add: for_in_clean_get has_prop_def keys_def get_prop_absent clean_val_undefined)
qed

subsection \<open>The multipart test\<close>

text \<open>
  Claim C10. The normaliser takes the body for multipart exactly when the
  body has both a \<open>fields\<close> and a \<open>files\<close> key. With both keys the loop runs
  over whatever \<open>fields\<close> holds and never over the body: when the call
  returns, the body has the keys it had and every property other than
  \<open>fields\<close> has the value it had (a string under \<open>fields\<close> is left too, or
  the call raises a TypeError when that string is not empty), and an object
  under \<open>fields\<close> comes back with its keys and with every property
  normalised. A body that lacks one of the two keys, in particular one with
  exactly one of them, is normalised as a flat map: it keeps its keys and
  every property is normalised.
\<close>

theorem cleanPost_multipart_gate:
  "(has_prop (js ''fields'') b \<and> has_prop (js ''files'') b \<longrightarrow>
      clean_body (JObj b)
        = (case get_prop b (js ''fields'') of
             JObj fs \<Rightarrow> Inr (JObj (set_prop b (js ''fields'') (JObj (for_in_clean (keys fs) fs))))
           | JStr s \<Rightarrow> (if s = [] then Inr (JObj b) else Inl TypeError)
           | _ \<Rightarrow> Inr (JObj b))
      \<and> (\<forall>r. clean_body (JObj b) = Inr (JObj r) \<longrightarrow>
            keys r = keys b \<and> (\<forall>k. k \<noteq> js ''fields'' \<longrightarrow> get_prop r k = get_prop b k))
      \<and> (\<forall>fs. get_prop b (js ''fields'') = JObj fs \<longrightarrow>
            (\<exists>r fs'. clean_body (JObj b) = Inr (JObj r) \<and> get_prop r (js ''fields'') = JObj fs'
               \<and> keys fs' = keys fs \<and> (\<forall>k. get_prop fs' k = clean_val (get_prop fs k)))))
   \<and> (\<not> (has_prop (js ''fields'') b \<and> has_prop (js ''files'') b) \<longrightarrow>
        (\<exists>r. clean_body (JObj b) = Inr (JObj r) \<and> keys r = keys b
           \<and> (\<forall>k. get_prop r k = clean_val (get_prop b k))))
   \<and> (has_prop (js ''fields'') b \<noteq> has_prop (js ''files'') b \<longrightarrow>
        (\<exists>r. clean_body (JObj b) = Inr (JObj r) \<and> keys r = keys b
           \<and> (\<forall>k. get_prop r k = clean_val (get_prop b k))))"
proof -
  have flat: "\<not> multipart b \<Longrightarrow>
      \<exists>r. clean_body (JObj b) = Inr (JObj r) \<and> keys r = keys b
           \<and> (\<forall>k. get_prop r k = clean_val (get_prop b k))"
    by (simp add: clean_body_def for_in_clean_keys for_in_clean_all)
  have eq: "multipart b \<Longrightarrow> clean_body (JObj b)
        = (case get_prop b (js ''fields'') of
             JObj fs \<Rightarrow> Inr (JObj (set_prop b (js ''fields'') (JObj (for_in_clean (keys fs) fs))))
           | JStr s \<Rightarrow> (if s = [] then Inr (JObj b) else Inl TypeError)
           | _ \<Rightarrow> Inr (JObj b))"
    by (simp add: clean_body_def)
  have rest: "multipart b \<Longrightarrow> clean_body (JObj b) = Inr (JObj r) \<Longrightarrow>
       keys r = keys b \<and> (\<forall>k. k \<noteq> js ''fields'' \<longrightarrow> get_prop r k = get_prop b k)" for r
    by (cases "get_prop b (js ''fields'')")
       (auto simp: clean_body_def multipart_def keys_set_prop get_set_other split: if_splits)
  have sub: "multipart b \<Longrightarrow> get_prop b (js ''fields'') = JObj fs \<Longrightarrow>
       \<exists>r fs'. clean_body (JObj b) = Inr (JObj r) \<and> get_prop r (js ''fields'') = JObj fs'
               \<and> keys fs' = keys fs \<and> (\<forall>k. get_prop fs' k = clean_val (get_prop fs k))" for fs
    by (simp add: clean_body_def get_set_same for_in_clean_keys for_in_clean_all)
  show ?thesis
    using flat eq rest sub unfolding multipart_def by blast
qed

theorem cleanPost_multipart_gate_witness:
  "has_prop (js ''fields'') sample_flat_both \<and> has_prop (js ''files'') sample_flat_both
   \<and> clean_body (JObj sample_flat_both) = Inr (JObj sample_flat_both)
   \<and> get_prop sample_flat_both (js ''name'') = JStr (js '' x '')
   \<and> has_prop (js ''fields'') sample_flat_both_text \<and> has_prop (js ''files'') sample_flat_both_text
   \<and> clean_body (JObj sample_flat_both_text) = Inl TypeError
   \<and> has_prop (js ''fields'') sample_multipart \<and> has_prop (js ''files'') sample_multipart
   \<and> clean_body (JObj sample_multipart)
       = Inr (JObj [(js ''fields'', JObj [(js ''a'', JStr (js ''x'')), (js ''b'', JNull)]),
                    (js ''files'', JObj [(js ''f'', JObj [(js ''name'', JStr (js '' f.txt ''))])]),
                    (js ''extra'', JStr (js '' y ''))])
   \<and> has_prop (js ''fields'') sample_fields_only \<and> \<not> has_prop (js ''files'') sample_fields_only
   \<and> clean_body (JObj sample_fields_only)
       = Inr (JObj [(js ''fields'', JStr (js ''a, b'')), (js ''q'', JNull)])"
proof -
  have h1: "has_prop (js ''fields'') sample_flat_both \<and> has_prop (js ''files'') sample_flat_both"
    by (simp add: sample_flat_both_def has_prop_def js_def)
  have h2: "has_prop (js ''fields'') sample_flat_both_text
              \<and> has_prop (js ''files'') sample_flat_both_text"
    by (simp add: sample_flat_both_text_def has_prop_def js_def)
  have h3: "has_prop (js ''fields'') sample_multipart \<and> has_prop (js ''files'') sample_multipart"
    by (simp add: sample_multipart_def has_prop_def js_def)
  have h4: "has_prop (js ''fields'') sample_fields_only
              \<and> \<not> has_prop (js ''files'') sample_fields_only"
    by (simp add: sample_fields_only_def has_prop_def js_def)
  have e1: "clean_body (JObj sample_flat_both) = Inr (JObj sample_flat_both)"
    using cleanPost_multipart_gate [of sample_flat_both, THEN conjunct1, THEN mp, OF h1,
            THEN conjunct1]
    by (simp add: sample_flat_both_def js_def)
  have e2: "clean_body (JObj sample_flat_both_text) = Inl TypeError"
    using cleanPost_multipart_gate [of sample_flat_both_text, THEN conjunct1, THEN mp, OF h2,
            THEN conjunct1]
    by (simp add: sample_flat_both_text_def js_def)
  have e3: "clean_body (JObj sample_multipart)
       = Inr (JObj [(js ''fields'', JObj [(js ''a'', JStr (js ''x'')), (js ''b'', JNull)]),
                    (js ''files'', JObj [(js ''f'', JObj [(js ''name'', JStr (js '' f.txt ''))])]),
                    (js ''extra'', JStr (js '' y ''))])"
    using cleanPost_multipart_gate [of sample_multipart, THEN conjunct1, THEN mp, OF h3,
            THEN conjunct1]
    by (simp add: sample_multipart_def keys_def trim_def isWhiteSpace_def js_def)
  have e4: "clean_body (JObj sample_fields_only)
       = Inr (JObj [(js ''fields'', JStr (js ''a, b'')), (js ''q'', JNull)])"
    by (simp add: clean_body_def multipart_def sample_fields_only_def has_prop_def keys_def
          trim_def isWhiteSpace_def js_def)
  have n: "get_prop sample_flat_both (js ''name'') = JStr (js '' x '')"
    by (simp add: sample_flat_both_def js_def)
  from h1 h2 h3 h4 e1 e2 e3 e4 n show ?thesis by simp
qed

subsection \<open>The error boundary\<close>




text \<open>
  Claim C3. When the error caught has status 404, the boundary renders the
  view \<open>404-not-found\<close> with \<open>msg\<close> equal to \<open>null\<close> if the error's message is
  \<open>Not Found\<close>, and to the error's message otherwise.
\<close>

theorem handleErrors_404:
  "next c = (Thrown e, c1) \<Longrightarrow> e_status e = Some 404 \<Longrightarrow>
   handleErrors env next c =
     (Done, c1\<lparr>status := 404,
               body := Rendered (js ''404-not-found'')
                 [(js ''msg'', if e_message e = js ''Not Found'' then LNull else LStr (e_message e))],
               effects := effects c1 @ [Render (js ''404-not-found'')
                 [(js ''msg'', if e_message e = js ''Not Found'' then LNull else LStr (e_message e))]]\<rparr>)"
  by (simp add: handleErrors_def status_or_500_def set_status_def valid_status_def
        render_def Let_def)

theorem handleErrors_404_witness:
  "throw (JsError (Some 404) (js ''No such member'')) (new_ctx (js ''www.example.com'') JUndefined 0)
     = (Thrown (JsError (Some 404) (js ''No such member'')), new_ctx (js ''www.example.com'') JUndefined 0)
   \<and> e_status (JsError (Some 404) (js ''No such member'')) = Some 404
   \<and> body (snd (handleErrors (js ''production'') (throw (JsError (Some 404) (js ''No such member'')))
         (new_ctx (js ''www.example.com'') JUndefined 0)))
      = Rendered (js ''404-not-found'') [(js ''msg'', LStr (js ''No such member''))]
   \<and> body (snd (handleErrors (js ''production'') (throw (JsError (Some 404) (js ''Not Found'')))
         (new_ctx (js ''www.example.com'') JUndefined 0)))
      = Rendered (js ''404-not-found'') [(js ''msg'', LNull)]"
  using handleErrors_404 [of "throw (JsError (Some 404) (js ''No such member''))"
          "new_ctx (js ''www.example.com'') JUndefined 0" "JsError (Some 404) (js ''No such member'')"
          "new_ctx (js ''www.example.com'') JUndefined 0" "js ''production''"]
        handleErrors_404 [of "throw (JsError (Some 404) (js ''Not Found''))"
          "new_ctx (js ''www.example.com'') JUndefined 0" "JsError (Some 404) (js ''Not Found'')"
          "new_ctx (js ''www.example.com'') JUndefined 0" "js ''production''"]
  by (simp add: throw_def js_def)







subsection \<open>Static files\<close>

text \<open>
  Claim C9. The cache lifetime handed to the static file server is
  86,400,000 ms (one day) when \<open>app.env\<close> is \<open>production\<close> and 1,000 ms (one
  second) for every other environment.
\<close>

theorem maxage_value:
  "maxage (js ''production'') = 86400000 \<and> (env \<noteq> js ''production'' \<longrightarrow> maxage env = 1000)"
  by (simp add: maxage_def)

theorem maxage_value_witness:
  "js ''development'' \<noteq> js ''production'' \<and> maxage (js ''development'') = 1000"
  using maxage_value [of "js ''development''"] by (simp add: js_def)

subsection \<open>The fallback and the access logger\<close>

text \<open>
  Claim C7. The fallback \<open>notFound\<close> always throws an error with status 404
  (and the generic message). Whenever the chain below the error boundary ends
  in that throw, reaching the fallback with the context \<open>c1\<close>, the boundary
  returns normally with response status 404 and the view \<open>404-not-found\<close>
  rendered, its \<open>msg\<close> being \<open>null\<close>.
\<close>

theorem notFound_404:
  "notFound c = (Thrown (JsError (Some 404) (js ''Not Found'')), c) \<and>
   (next c = notFound c1 \<longrightarrow>
      handleErrors env next c =
        (Done, c1\<lparr>status := 404,
                  body := Rendered (js ''404-not-found'') [(js ''msg'', LNull)],
                  effects := effects c1 @
                    [Render (js ''404-not-found'') [(js ''msg'', LNull)]]\<rparr>))"
  by (simp add: notFound_def throw_def http_error_404_def handleErrors_def
        status_or_500_def set_status_def valid_status_def render_def Let_def)

theorem notFound_404_witness:
  "cleanPost (pass_through (pass_through (ctxAddDomain (pass_through notFound))))
       (new_ctx (js ''www.example.com'') JUndefined 0)
     = notFound ((new_ctx (js ''www.example.com'') JUndefined 0)
                   \<lparr>state := [(js ''domain'', JStr (js ''example.com''))]\<rparr>)
   \<and> handleErrors (js ''production'')
         (cleanPost (pass_through (pass_through (ctxAddDomain (pass_through notFound)))))
         (new_ctx (js ''www.example.com'') JUndefined 0)
     = (Done, (new_ctx (js ''www.example.com'') JUndefined 0)
          \<lparr>state := [(js ''domain'', JStr (js ''example.com''))],
           status := 404,
           body := Rendered (js ''404-not-found'') [(js ''msg'', LNull)],
           effects := [Render (js ''404-not-found'') [(js ''msg'', LNull)]]\<rparr>)"
proof -
  have reach:
    "cleanPost (pass_through (pass_through (ctxAddDomain (pass_through notFound))))
       (new_ctx (js ''www.example.com'') JUndefined 0)
     = notFound ((new_ctx (js ''www.example.com'') JUndefined 0)
                   \<lparr>state := [(js ''domain'', JStr (js ''example.com''))]\<rparr>)"
    by (simp add: cleanPost_def clean_body_def pass_through_def ctxAddDomain_def
          notFound_def throw_def new_ctx_def js_def)
  show ?thesis
    using reach
      notFound_404 [of "(new_ctx (js ''www.example.com'') JUndefined 0)"
        "cleanPost (pass_through (pass_through (ctxAddDomain (pass_through notFound))))"
        "(new_ctx (js ''www.example.com'') JUndefined 0)
                   \<lparr>state := [(js ''domain'', JStr (js ''example.com''))]\<rparr>"
        "js ''production''"]
    by (simp add: new_ctx_def)
qed

text \<open>
  Claim C8, as stated, has the sink called once for every request, with a
  duration that is not negative. When the chain below the logger throws (here
  the error boundary, on an error with status 42), \<open>logAccess\<close> is left at
  \<open>await next()\<close> and the sink is not called. When the clock is set back by 5
  ms while the chain runs, the duration logged is -5.
\<close>

theorem logAccess_skipped_counterexample:
  "logAccess sink_ok (handleErrors (js ''production'') (throw (JsError (Some 42) (js ''boom''))))
       (new_ctx (js ''www.example.com'') JUndefined 1000)
     = (Thrown (JsError None (js ''invalid status code: 42'')),
        new_ctx (js ''www.example.com'') JUndefined 1000)
   \<and> effects (new_ctx (js ''www.example.com'') JUndefined 1000) = []
   \<and> effects (snd (logAccess sink_ok (elapse (- 5) finish)
        (new_ctx (js ''www.example.com'') JUndefined 1000))) = [LogAccess (- 5)]"
  by (simp add: logAccess_def Log_access_def sink_ok_def elapse_def finish_def
        handleErrors_def throw_def status_or_500_def set_status_def valid_status_def
        AssertionError_def show_int_def decimal.simps new_ctx_def js_def Let_def)

text \<open>
  Claim C8, amended. When the chain below the logger completes, \<open>logAccess\<close>
  calls the log sink once, as the last call of the request, with the duration
  \<open>t2 - t1\<close> of the two clock readings, and returns what the sink returns; the
  duration is not negative exactly when the reading after the chain is not
  behind the reading before it. When the chain below the logger throws, the
  sink is not called and the error goes on upwards.
\<close>

theorem logAccess_once:
  "(\<forall>c1. next c = (Done, c1) \<longrightarrow>
      logAccess sink next c
        = (sink c1 (now c1 - now c),
           c1\<lparr>effects := effects c1 @ [LogAccess (now c1 - now c)]\<rparr>)
      \<and> length (filter is_LogAccess (effects (snd (logAccess sink next c))))
          = Suc (length (filter is_LogAccess (effects c1)))
      \<and> ((0 \<le> now c1 - now c) = (now c \<le> now c1)))
   \<and> (\<forall>e c1. next c = (Thrown e, c1) \<longrightarrow> logAccess sink next c = (Thrown e, c1))"
  by (simp add: logAccess_def Log_access_def Let_def)

theorem logAccess_once_witness:
  "handleErrors (js ''production'') (elapse 7 (throw TypeError))
          (new_ctx (js ''www.example.com'') JUndefined 1000)
     = (Done, (new_ctx (js ''www.example.com'') JUndefined 1000)
          \<lparr>now := 1007, status := 500,
           body := Rendered (js ''500-internal-server-error'') [],
           effects := [ConsoleError 500 (js ''TypeError''),
                       Render (js ''500-internal-server-error'') [], Emit TypeError]\<rparr>)
   \<and> effects (snd (logAccess sink_ok (handleErrors (js ''production'') (elapse 7 (throw TypeError)))
          (new_ctx (js ''www.example.com'') JUndefined 1000)))
      = [ConsoleError 500 (js ''TypeError''), Render (js ''500-internal-server-error'') [],
         Emit TypeError, LogAccess 7]
   \<and> throw TypeError (new_ctx (js ''www.example.com'') JUndefined 1000)
      = (Thrown TypeError, new_ctx (js ''www.example.com'') JUndefined 1000)
   \<and> logAccess sink_ok (throw TypeError) (new_ctx (js ''www.example.com'') JUndefined 1000)
      = (Thrown TypeError, new_ctx (js ''www.example.com'') JUndefined 1000)"
proof -
  have d: "handleErrors (js ''production'') (elapse 7 (throw TypeError))
          (new_ctx (js ''www.example.com'') JUndefined 1000)
     = (Done, (new_ctx (js ''www.example.com'') JUndefined 1000)
          \<lparr>now := 1007, status := 500,
           body := Rendered (js ''500-internal-server-error'') [],
           effects := [ConsoleError 500 (js ''TypeError''),
                       Render (js ''500-internal-server-error'') [], Emit TypeError]\<rparr>)"
    by (simp add: handleErrors_def elapse_def throw_def TypeError_def status_or_500_def
          set_status_def valid_status_def render_def console_error_def emit_error_def
          new_ctx_def Let_def)
  have t: "throw TypeError (new_ctx (js ''www.example.com'') JUndefined 1000)
      = (Thrown TypeError, new_ctx (js ''www.example.com'') JUndefined 1000)"
    by (simp add: throw_def)
  show ?thesis
    using d t
      logAccess_once [of "handleErrors (js ''production'') (elapse 7 (throw TypeError))"
          "new_ctx (js ''www.example.com'') JUndefined 1000" sink_ok]
      logAccess_once [of "throw TypeError"
          "new_ctx (js ''www.example.com'') JUndefined 1000" sink_ok]
    by (simp add: new_ctx_def)
qed

text \<open>
  A request no route matches, through the whole chain with library
  middleware that only call \<open>next\<close>: the response is the 404 page, and the
  access is logged after it.
\<close>

lemma app_www_unmatched:
  "app_www (js ''production'') sink_ok pass_through pass_through pass_through pass_through
       pass_through (new_ctx (js ''www.example.com'') JUndefined 0)
     = (Done, (new_ctx (js ''www.example.com'') JUndefined 0)
          \<lparr>state := [(js ''domain'', JStr (js ''example.com''))],
           status := 404,
           body := Rendered (js ''404-not-found'') [(js ''msg'', LNull)],
           effects := [Render (js ''404-not-found'') [(js ''msg'', LNull)], LogAccess 0]\<rparr>)"
  by (simp add: app_www_def pass_through_def logAccess_def Log_access_def sink_ok_def
        handleErrors_def cleanPost_def clean_body_def ctxAddDomain_def notFound_def
        throw_def http_error_404_def status_or_500_def set_status_def valid_status_def
        render_def new_ctx_def js_def Let_def)

subsection \<open>The domain in ctx.state\<close>

lemma replace_prefix: "prefix pat s \<Longrightarrow> replace s pat rep = rep @ drop (length pat) s"
  by (cases s) auto

lemma replace_absent: "\<not> (\<exists>xs ys. s = xs @ pat @ ys) \<Longrightarrow> replace s pat rep = s"
proof (induction s)
  case Nil
  then show ?case by auto
next
  case (Cons c cs)
  have "\<not> prefix pat (c # cs)" using Cons.prems by (metis append_Nil prefix_def)
  moreover have "\<not> (\<exists>xs ys. cs = xs @ pat @ ys)" using Cons.prems by (metis append_Cons)
  ultimately show ?case using Cons.IH by simp
qed

lemma ctxAddDomain_examples:
  "get_prop (state (snd (ctxAddDomain finish (new_ctx (js ''www.example.com'') JUndefined 0))))
     (js ''domain'') = JStr (js ''example.com'')"
  "get_prop (state (snd (ctxAddDomain finish (new_ctx (js ''example.com'') JUndefined 0))))
     (js ''domain'') = JStr (js ''example.com'')"
  by (simp_all add: ctxAddDomain_def finish_def new_ctx_def js_def)

text \<open>
  Claim C6. The claim's two examples hold (\<open>ctxAddDomain_examples\<close>), and a
  host that begins with \<open>www.\<close> loses that prefix (\<open>replace_prefix\<close>). But
  \<open>replace\<close> is not anchored at the start: for the host
  \<open>blog.www.example.com\<close>, which has no \<open>www.\<close> prefix, the domain stored is
  \<open>blog.example.com\<close> and not the host unchanged.
\<close>

theorem ctxAddDomain_inner_www:
  "get_prop (state (snd (ctxAddDomain finish (new_ctx (js ''blog.www.example.com'') JUndefined 0))))
     (js ''domain'') = JStr (js ''blog.example.com'')"
  by (simp add: ctxAddDomain_def finish_def new_ctx_def js_def)

end
